theory Spec2Isabelle
  imports Complex_Main "HOL-Library.Sublist"
begin

text \<open>
  The notebooks of the workshop call hosted models and print what comes back. Three of
  their functions have logic of their own, and are modelled here:
  \<open>plan_trip_with_reasoning\<close> (the DeepSeek-R1 notebook), which splits a reply at its
  \<open><thinking>\<close> tags; \<open>chat_with_template\<close> (the chat completions notebook), which fills
  a prompt template; and \<open>retrieve_tips\<close> (the multi-agent notebook), which picks health
  tips by keyword.
\<close>

section \<open>Python strings\<close>

text \<open>
  A Python \<open>str\<close> is a sequence of Unicode code points; indices, \<open>find\<close> and slices count
  code points. A code point is a natural number here, and the literals of the notebooks
  (all ASCII) are written with \<open>lit\<close>.
\<close>

type_synonym codepoint = nat
type_synonym pystr = "codepoint list"

definition lit :: "string \<Rightarrow> pystr" where
  "lit s = map of_char s"

text \<open>\<open>sub in s\<close>: some position of \<open>s\<close> starts with \<open>sub\<close>.\<close>

fun str_in :: "pystr \<Rightarrow> pystr \<Rightarrow> bool" where
  "str_in sub [] = (sub = [])"
| "str_in sub (c # cs) = (prefix sub (c # cs) \<or> str_in sub cs)"

text \<open>\<open>s.find(sub)\<close>: the lowest index where \<open>sub\<close> starts, \<open>-1\<close> when there is none.\<close>

fun str_find :: "pystr \<Rightarrow> pystr \<Rightarrow> int" where
  "str_find [] sub = (if sub = [] then 0 else - 1)"
| "str_find (c # cs) sub =
     (if prefix sub (c # cs) then 0
      else (let r = str_find cs sub in if r < 0 then - 1 else r + 1))"

text \<open>
  Slice bounds: a negative bound counts from the end, and every bound is clamped to
  \<open>0 .. len(s)\<close>. \<open>s[a:b]\<close> is empty when the upper bound is not above the lower one.
\<close>

definition slice_index :: "nat \<Rightarrow> int \<Rightarrow> nat" where
  "slice_index n i = (if i < 0 then nat (max 0 (int n + i)) else min n (nat i))"

definition slice :: "pystr \<Rightarrow> int \<Rightarrow> int \<Rightarrow> pystr" where
  "slice s a b =
     (let lo = slice_index (length s) a; hi = slice_index (length s) b
      in take (hi - lo) (drop lo s))"

definition slice_from :: "pystr \<Rightarrow> int \<Rightarrow> pystr" where
  "slice_from s a = drop (slice_index (length s) a) s"

text \<open>
  \<open>str.isspace\<close> on one code point: the ASCII controls TAB to CR and FS to US, the space,
  NEL, the no-break space, and the Unicode separators. \<open>strip()\<close> and \<open>split()\<close> without
  arguments both use it.
\<close>

definition isspace :: "codepoint \<Rightarrow> bool" where
  "isspace c =
     ((9 \<le> c \<and> c \<le> 13) \<or> (28 \<le> c \<and> c \<le> 32) \<or> c = 133 \<or> c = 160 \<or> c = 5760 \<or>
      (8192 \<le> c \<and> c \<le> 8202) \<or> c = 8232 \<or> c = 8233 \<or> c = 8239 \<or> c = 8287 \<or> c = 12288)"

definition str_strip :: "pystr \<Rightarrow> pystr" where
  "str_strip s = rev (dropWhile isspace (rev (dropWhile isspace s)))"



text \<open>
  \<open>s.split()\<close>: the runs of code points between whitespace, in order; it never returns
  an empty word. \<open>split_words\<close> scans once, \<open>word\<close> being the run read so far.
\<close>

fun split_words :: "pystr \<Rightarrow> pystr \<Rightarrow> pystr list" where
  "split_words word [] = (if word = [] then [] else [word])"
| "split_words word (c # cs) =
     (if isspace c then
        (if word = [] then split_words [] cs else word # split_words [] cs)
      else split_words (word @ [c]) cs)"

definition str_split :: "pystr \<Rightarrow> pystr list" where
  "str_split s = split_words [] s"

text \<open>\<open>sep.join(xs)\<close>.\<close>

fun str_join :: "pystr \<Rightarrow> pystr list \<Rightarrow> pystr" where
  "str_join sep [] = []"
| "str_join sep [x] = x"
| "str_join sep (x # y # ys) = x @ sep @ str_join sep (y # ys)"

text \<open>
  A whitespace-separated word of \<open>s\<close>: a non-empty stretch of \<open>s\<close> without whitespace
  that has whitespace, or an end of \<open>s\<close>, on each side.
\<close>

definition word_of :: "pystr \<Rightarrow> pystr \<Rightarrow> bool" where
  "word_of w s =
     (w \<noteq> [] \<and> \<not> list_ex isspace w \<and>
      (\<exists>pre post. s = pre @ w @ post \<and> (pre = [] \<or> isspace (last pre)) \<and>
         (post = [] \<or> isspace (hd post))))"


section \<open>The chat completion call\<close>

text \<open>
  The notebooks reach the model through \<open>project_client\<close>: they open a client
  (\<open>get_azure_openai_client\<close>), call \<open>chat.completions.create\<close> and read
  \<open>response.choices[0].message.content\<close>. That block is the transport: an outside
  service, which answers a request with a text or raises. What it answers may depend on
  the requests it has seen. The content of an answer is taken to be a string. The world
  keeps the requests sent and the lines printed.
\<close>

datatype message = SystemMessage pystr | UserMessage pystr

record request =
  api_version :: pystr
  messages :: "message list"
  model :: "pystr option"
  temperature :: "rat option"
  max_tokens :: "nat option"

text \<open>
  What a call can raise. An instance of \<open>Exception\<close> (of any subclass; it carries the text
  that \<open>str(e)\<close> gives) is what \<open>except Exception\<close> catches. \<open>KeyboardInterrupt\<close> and
  \<open>SystemExit\<close> derive from \<open>BaseException\<close> only, and pass through such a handler.
\<close>

datatype raised = Exception pystr | KeyboardInterrupt | SystemExit

text \<open>\<open>Inl\<close>: what the call raised; \<open>Inr\<close>: the content of the reply.\<close>

type_synonym transport = "request list \<Rightarrow> request \<Rightarrow> raised + pystr"

record world =
  calls :: "request list"
  stdout :: "pystr list"

definition chat_completions_create ::
  "transport \<Rightarrow> request \<Rightarrow> world \<Rightarrow> (raised + pystr) \<times> world" where
  "chat_completions_create project_client req w =
     (project_client (calls w) req, w\<lparr>calls := calls w @ [req]\<rparr>)"

definition print :: "pystr \<Rightarrow> world \<Rightarrow> world" where
  "print line w = w\<lparr>stdout := stdout w @ [line]\<rparr>"

text \<open>
  The exceptions of the model. \<open>str.format\<close> raises \<open>KeyError\<close> with the name it did not
  find, and \<open>ValueError\<close> on a brace that does not pair up: \<open>Single '}' encountered in
  format string\<close>, \<open>Single '{' encountered in format string\<close>, \<open>expected '}' before end
  of string\<close>. \<open>Raised\<close> is what the transport raised, reaching the caller as it is.
  \<open>UnsupportedField\<close> is not a Python exception: it marks a format field outside the
  part of \<open>str.format\<close> that is modelled.
\<close>

datatype value_error = SingleCloseBrace | SingleOpenBrace | MissingCloseBrace

datatype exn =
  KeyError pystr
| ValueError value_error
| Raised raised
| UnsupportedField pystr


section \<open>Travel planning with reasoning extraction\<close>

text \<open>
  What \<open>plan_trip_with_reasoning\<close> returns: the dictionary
  \<open>{"thinking": .., "answer": .., "full_response": ..}\<close> (the three fields in this
  order), the content as it came, or \<open>None\<close>.
\<close>

datatype result = Dict pystr pystr pystr | Str pystr | NoneResult

definition model_name :: pystr where
  "model_name = lit ''DeepSeek-R1-0528''"

definition open_tag :: pystr where
  "open_tag = lit ''<thinking>''"

definition close_tag :: pystr where
  "close_tag = lit ''</thinking>''"

definition thinking_start :: "pystr \<Rightarrow> int" where
  "thinking_start content = str_find content open_tag + 10"

definition thinking_end :: "pystr \<Rightarrow> int" where
  "thinking_end content = str_find content close_tag"

text \<open>The lines after the call: extract the reasoning if asked to and both tags are there.\<close>

definition extract_reasoning :: "bool \<Rightarrow> pystr \<Rightarrow> result" where
  "extract_reasoning show_thinking content =
     (if show_thinking \<and> str_in open_tag content \<and> str_in close_tag content then
        (let thinking = str_strip (slice content (thinking_start content) (thinking_end content));
             final_answer = str_strip (slice_from content (thinking_end content + 12))
         in Dict thinking final_answer content)
      else Str content)"

definition trip_request :: "pystr \<Rightarrow> request" where
  "trip_request query =
     \<lparr>api_version = lit ''2024-10-21'',
      messages =
        [SystemMessage (lit ''You are a travel expert. Provide detailed plans with rationale.''),
         UserMessage (query @ lit '' Include hidden gems and safety considerations.'')],
      model = Some model_name,
      temperature = Some (7 / 10),
      max_tokens = Some 1024\<rparr>"

text \<open>
  The two lines the handler prints; 10060 and 128161 are the code points of the cross mark
  and the light bulb that start them.
\<close>

definition error_calling_api :: "pystr \<Rightarrow> pystr" where
  "error_calling_api e = 10060 # lit '' Error calling API: '' @ e"

definition deployment_hint :: pystr where
  "deployment_hint =
     128161 # lit '' Make sure the model '' @ [39] @ model_name @ [39] @
     lit '' is properly deployed''"

text \<open>
  The whole function. Its \<open>except Exception\<close> handler covers the body: an \<open>Exception\<close> of
  the transport is caught, two lines are printed and \<open>None\<close> is returned. What is not an
  \<open>Exception\<close> passes the handler and reaches the caller, with nothing printed.
\<close>

definition plan_trip_with_reasoning ::
  "transport \<Rightarrow> pystr \<Rightarrow> bool \<Rightarrow> world \<Rightarrow> (exn + result) \<times> world" where
  "plan_trip_with_reasoning project_client query show_thinking w =
     (case chat_completions_create project_client (trip_request query) w of
        (Inr content, w1) \<Rightarrow> (Inr (extract_reasoning show_thinking content), w1)
      | (Inl r, w1) \<Rightarrow>
          (case r of
             Exception e \<Rightarrow>
               (Inr NoneResult, print deployment_hint (print (error_calling_api e) w1))
           | KeyboardInterrupt \<Rightarrow> (Inl (Raised r), w1)
           | SystemExit \<Rightarrow> (Inl (Raised r), w1)))"


text \<open>Calling it without \<open>show_thinking\<close> takes the default, \<open>False\<close>.\<close>

definition plan_trip_default :: "transport \<Rightarrow> pystr \<Rightarrow> world \<Rightarrow> (exn + result) \<times> world" where
  "plan_trip_default project_client query w =
     plan_trip_with_reasoning project_client query False w"


section \<open>Chat with a prompt template\<close>

text \<open>
  \<open>template.format(**kwargs)\<close> for templates of literal text, the escapes \<open>{{\<close> and
  \<open>}}\<close>, and fields \<open>{name}\<close> whose name is an ASCII identifier. The string is read from
  the left (123 and 125 are the braces): text is copied, a field is looked up in
  \<open>kwargs\<close> and its value copied, and the first thing that goes wrong is raised. Fields
  with an index, an attribute, a conversion or a format specification, and positional
  fields, are outside the model and end in \<open>UnsupportedField\<close>.
\<close>

definition identifier_start :: "codepoint \<Rightarrow> bool" where
  "identifier_start c = (c = 95 \<or> (65 \<le> c \<and> c \<le> 90) \<or> (97 \<le> c \<and> c \<le> 122))"

definition identifier_char :: "codepoint \<Rightarrow> bool" where
  "identifier_char c = (identifier_start c \<or> (48 \<le> c \<and> c \<le> 57))"

definition is_identifier :: "pystr \<Rightarrow> bool" where
  "is_identifier name =
     (case name of [] \<Rightarrow> False | c # cs \<Rightarrow> identifier_start c \<and> list_all identifier_char cs)"

text \<open>Put a piece of output in front of what the rest of the template gives.\<close>

definition emit :: "pystr \<Rightarrow> exn + pystr \<Rightarrow> exn + pystr" where
  "emit piece r = (case r of Inl e \<Rightarrow> Inl e | Inr out \<Rightarrow> Inr (piece @ out))"

function str_format :: "pystr \<Rightarrow> (pystr \<rightharpoonup> pystr) \<Rightarrow> exn + pystr" where
  "str_format [] kwargs = Inr []"
| "str_format (c # cs) kwargs =
     (if c = 125 then
        (case cs of
           [] \<Rightarrow> Inl (ValueError SingleCloseBrace)
         | d # ds \<Rightarrow>
             if d = 125 then emit [125] (str_format ds kwargs)
             else Inl (ValueError SingleCloseBrace))
      else if c = 123 then
        (case cs of
           [] \<Rightarrow> Inl (ValueError SingleOpenBrace)
         | d # ds \<Rightarrow>
             if d = 123 then emit [123] (str_format ds kwargs)
             else
               (let field_name = takeWhile (\<lambda>x. x \<noteq> 125) cs;
                    rest = dropWhile (\<lambda>x. x \<noteq> 125) cs
                in if \<not> is_identifier field_name then Inl (UnsupportedField field_name)
                   else if rest = [] then Inl (ValueError MissingCloseBrace)
                   else
                     (case kwargs field_name of
                        None \<Rightarrow> Inl (KeyError field_name)
                      | Some v \<Rightarrow> emit v (str_format (tl rest) kwargs))))
      else emit [c] (str_format cs kwargs))"
  by pat_completeness auto
termination
proof (relation "measure (\<lambda>(t, kwargs). length t)")
  fix c :: codepoint and cs :: pystr and kwargs :: "pystr \<rightharpoonup> pystr" and d ds x xa y
  assume "xa = dropWhile (\<lambda>x. x \<noteq> 125) cs"
  have "length (dropWhile (\<lambda>x. x \<noteq> 125) cs) \<le> length cs"
    by (rule length_dropWhile_le)
  then have "length (tl (dropWhile (\<lambda>x. x \<noteq> 125) cs)) \<le> length cs"
    by simp
  with \<open>xa = _\<close> show "((tl xa, kwargs), c # cs, kwargs) \<in> measure (\<lambda>(t, kwargs). length t)"
    by simp
qed simp_all

text \<open>
  The field names of a template in the order the scan meets them; \<open>None\<close> for a string
  that is not a template of the kind above (a brace that does not pair up, a field that
  is not an identifier).
\<close>

function placeholders :: "pystr \<Rightarrow> pystr list option" where
  "placeholders [] = Some []"
| "placeholders (c # cs) =
     (if c = 125 then
        (case cs of
           [] \<Rightarrow> None
         | d # ds \<Rightarrow> if d = 125 then placeholders ds else None)
      else if c = 123 then
        (case cs of
           [] \<Rightarrow> None
         | d # ds \<Rightarrow>
             if d = 123 then placeholders ds
             else
               (let field_name = takeWhile (\<lambda>x. x \<noteq> 125) cs;
                    rest = dropWhile (\<lambda>x. x \<noteq> 125) cs
                in if \<not> is_identifier field_name \<or> rest = [] then None
                   else map_option ((#) field_name) (placeholders (tl rest))))
      else placeholders cs)"
  by pat_completeness auto
termination
proof (relation "measure length")
  fix c :: codepoint and cs :: pystr and d ds x xa
  assume "xa = dropWhile (\<lambda>x. x \<noteq> 125) cs"
  have "length (dropWhile (\<lambda>x. x \<noteq> 125) cs) \<le> length cs"
    by (rule length_dropWhile_le)
  then have "length (tl (dropWhile (\<lambda>x. x \<noteq> 125) cs)) \<le> length cs"
    by simp
  with \<open>xa = _\<close> show "(tl xa, c # cs) \<in> measure length"
    by simp
qed simp_all

text \<open>
  A template written out as its parts: literal text and fields. \<open>template_of\<close> is the
  format string that stands for the parts (a brace of the text is doubled), and
  \<open>substitute\<close> is the text with each field replaced by its value.
\<close>

datatype segment = Literal pystr | Field pystr

definition escape_braces :: "pystr \<Rightarrow> pystr" where
  "escape_braces t = concat (map (\<lambda>c. if c = 123 \<or> c = 125 then [c, c] else [c]) t)"

fun template_of :: "segment list \<Rightarrow> pystr" where
  "template_of [] = []"
| "template_of (Literal t # segs) = escape_braces t @ template_of segs"
| "template_of (Field n # segs) = 123 # n @ 125 # template_of segs"

fun fields_of :: "segment list \<Rightarrow> pystr list" where
  "fields_of [] = []"
| "fields_of (Literal t # segs) = fields_of segs"
| "fields_of (Field n # segs) = n # fields_of segs"

fun substitute :: "(pystr \<rightharpoonup> pystr) \<Rightarrow> segment list \<Rightarrow> pystr" where
  "substitute kwargs [] = []"
| "substitute kwargs (Literal t # segs) = t @ substitute kwargs segs"
| "substitute kwargs (Field n # segs) =
     (case kwargs n of None \<Rightarrow> [] | Some v \<Rightarrow> v) @ substitute kwargs segs"

text \<open>The template of \<open>chat_with_template\<close>; 10 is the line feed.\<close>

definition system_template :: pystr where
  "system_template =
     lit ''You are FitChat GPT, an AI personal trainer for {name}.'' @ [10] @
     lit ''Your user wants to achieve: {goal}.'' @ [10] @
     lit ''Remind them you're not a medical professional. Offer friendly advice.''"

text \<open>
  \<open>chat_with_template\<close> has no handler: what \<open>format\<close> or the transport raises reaches
  the caller. \<open>model_deployment\<close> is read from the environment and may be missing.
\<close>

definition chat_with_template ::
  "transport \<Rightarrow> pystr option \<Rightarrow> pystr \<Rightarrow> pystr \<Rightarrow> pystr \<Rightarrow> world \<Rightarrow> (exn + pystr) \<times> world" where
  "chat_with_template project_client model_deployment user_input user_name goal w =
     (case str_format system_template [lit ''name'' \<mapsto> user_name, lit ''goal'' \<mapsto> goal] of
        Inl e \<Rightarrow> (Inl e, w)
      | Inr system_prompt \<Rightarrow>
          (case chat_completions_create project_client
                  \<lparr>api_version = lit ''2024-10-21'',
                   messages = [SystemMessage system_prompt, UserMessage user_input],
                   model = model_deployment,
                   temperature = None,
                   max_tokens = None\<rparr> w of
             (Inr content, w1) \<Rightarrow> (Inr content, w1)
           | (Inl r, w1) \<Rightarrow> (Inl (Raised r), w1)))"


section \<open>Retrieving health tips\<close>

record tip =
  tip_id :: pystr
  tip_content :: pystr
  tip_source :: pystr

definition health_tips :: "tip list" where
  "health_tips =
     [\<lparr>tip_id = lit ''tip1'',
       tip_content = lit ''Do a 10-minute HIIT workout to boost your metabolism.'',
       tip_source = lit ''Fitness Guru''\<rparr>,
      \<lparr>tip_id = lit ''tip2'',
       tip_content =
         lit ''Take a brisk 15-minute walk to clear your mind and improve circulation.'',
       tip_source = lit ''Health Coach''\<rparr>,
      \<lparr>tip_id = lit ''tip3'',
       tip_content = lit ''Stretch for 5 minutes every hour if you're sitting at a desk.'',
       tip_source = lit ''Wellness Expert''\<rparr>,
      \<lparr>tip_id = lit ''tip4'',
       tip_content = lit ''Incorporate strength training twice a week for overall fitness.'',
       tip_source = lit ''Personal Trainer''\<rparr>,
      \<lparr>tip_id = lit ''tip5'',
       tip_content = lit ''Drink water regularly to stay hydrated during workouts.'',
       tip_source = lit ''Nutritionist''\<rparr>]"

text \<open>The line built for a tip: \<open>f"Source: {tip['source']} => {tip['content']}"\<close>.\<close>

definition format_tip :: "tip \<Rightarrow> pystr" where
  "format_tip tip = lit ''Source: '' @ tip_source tip @ lit '' => '' @ tip_content tip"

text \<open>
  \<open>str.lower\<close> is the interpreter's Unicode case mapping. It is an argument of the model
  (\<open>lower\<close>), so what is proved holds for whatever mapping is applied.
  \<open>any_word_in\<close> is the condition of the loop:
  \<open>any(word in tip["content"].lower() for word in query_lower.split())\<close>.
\<close>

definition any_word_in :: "(pystr \<Rightarrow> pystr) \<Rightarrow> pystr \<Rightarrow> tip \<Rightarrow> bool" where
  "any_word_in lower query_lower tip =
     list_ex (\<lambda>word. str_in word (lower (tip_content tip))) (str_split query_lower)"

text \<open>The \<open>for\<close> loop over the tips, appending to \<open>relevant\<close>.\<close>

fun tips_loop :: "(pystr \<Rightarrow> pystr) \<Rightarrow> pystr \<Rightarrow> tip list \<Rightarrow> pystr list \<Rightarrow> pystr list" where
  "tips_loop lower query_lower [] relevant = relevant"
| "tips_loop lower query_lower (tip # tips) relevant =
     tips_loop lower query_lower tips
       (if any_word_in lower query_lower tip then relevant @ [format_tip tip] else relevant)"

definition retrieve_tips :: "(pystr \<Rightarrow> pystr) \<Rightarrow> pystr \<Rightarrow> pystr" where
  "retrieve_tips lower query =
     (let query_lower = lower query;
          relevant = tips_loop lower query_lower health_tips [];
          relevant = (if relevant = [] then map format_tip health_tips else relevant)
      in str_join [10] relevant)"


section \<open>Sample inputs\<close>

text \<open>
  A transport that always answers the same text, one that always raises the same, the
  world before any call, the query of the notebook, and the texts the theorems are tried
  on.
\<close>

definition canned :: "pystr \<Rightarrow> transport" where
  "canned reply history req = Inr reply"

definition failing :: "raised \<Rightarrow> transport" where
  "failing r history req = Inl r"

text \<open>A transport that gives the answers of a list, one per call, in order.\<close>

definition scripted :: "(raised + pystr) list \<Rightarrow> transport" where
  "scripted answers history req =
     (case drop (length history) answers of
        [] \<Rightarrow> Inl (Exception (lit ''no answer left''))
      | answer # later \<Rightarrow> answer)"

definition world0 :: world where
  "world0 = \<lparr>calls = [], stdout = []\<rparr>"

definition kyoto_query :: pystr where
  "kyoto_query = lit ''Plan a 5-day cultural trip to Kyoto in April''"

definition scenario_1 :: pystr where
  "scenario_1 = lit ''<thinking>Check weather first.</thinking>Visit Kyoto in April.''"

definition scenario_2 :: pystr where
  "scenario_2 = lit ''Just a plain answer, no tags.''"

definition unterminated :: pystr where
  "unterminated = lit ''<thinking>Check weather first.''"


definition auth_failure :: pystr where
  "auth_failure = lit ''401 Unauthorized''"

definition hello_template :: pystr where
  "hello_template = lit ''Hello {name}.''"

definition workout_query :: pystr where
  "workout_query = lit ''WALK  workout''"

definition yoga_query :: pystr where
  "yoga_query = lit ''Yoga?''"

text \<open>\<open>str.lower\<close> on ASCII text, for the sample query.\<close>

definition ascii_lower :: "pystr \<Rightarrow> pystr" where
  "ascii_lower s = map (\<lambda>c. if 65 \<le> c \<and> c \<le> 90 then c + 32 else c) s"


section \<open>Facts about the string operations\<close>

lemma str_in_sublist: "str_in sub s \<longleftrightarrow> sublist sub s"
  by (induction s) (simp_all add: sublist_Cons_right)

lemma str_find_ge: "- 1 \<le> str_find s sub"
  by (induction s) (simp_all add: Let_def)

lemma str_find_absent: "str_find s sub = - 1 \<longleftrightarrow> \<not> str_in sub s"
proof (induction s)
  case Nil
  then show ?case by simp
next
  case (Cons c cs)
  have "- 1 \<le> str_find cs sub" by (rule str_find_ge)
  with Cons show ?case by (auto simp: Let_def)
qed





section \<open>What the travel planner returns\<close>

lemmas str_eval =
  lit_def open_tag_def close_tag_def thinking_start_def thinking_end_def
  slice_def slice_from_def slice_index_def str_strip_def isspace_def Let_def

lemma plan_trip_reply:
  "project_client (calls w) (trip_request query) = Inr content \<Longrightarrow>
   plan_trip_with_reasoning project_client query show_thinking w =
     (Inr (extract_reasoning show_thinking content),
      w\<lparr>calls := calls w @ [trip_request query]\<rparr>)"
  by (simp add: plan_trip_with_reasoning_def chat_completions_create_def)

lemma plan_trip_raise:
  "project_client (calls w) (trip_request query) = Inl r \<Longrightarrow>
   plan_trip_with_reasoning project_client query show_thinking w =
     (case r of
        Exception e \<Rightarrow>
          (Inr NoneResult,
           w\<lparr>calls := calls w @ [trip_request query],
             stdout := stdout w @ [error_calling_api e, deployment_hint]\<rparr>)
      | KeyboardInterrupt \<Rightarrow>
          (Inl (Raised KeyboardInterrupt), w\<lparr>calls := calls w @ [trip_request query]\<rparr>)
      | SystemExit \<Rightarrow>
          (Inl (Raised SystemExit), w\<lparr>calls := calls w @ [trip_request query]\<rparr>))"
  by (simp add: plan_trip_with_reasoning_def chat_completions_create_def print_def
        split: raised.splits)

lemma canned_reply: "canned reply (calls w) (trip_request query) = Inr reply"
  by (simp add: canned_def)

lemma scenario_1_result:
  "extract_reasoning True scenario_1 =
     Dict (lit ''Check weather first.'') (lit ''isit Kyoto in April.'') scenario_1"
  by (simp add: extract_reasoning_def scenario_1_def str_eval)

text \<open>
  C7. A reply in which \<open><thinking>\<close> does not occur is returned as it is: the answer is
  the entire raw text, and no reasoning is extracted, whatever \<open>show_thinking\<close> is.
\<close>

theorem no_open_tag_returns_raw:
  assumes "project_client (calls w) (trip_request query) = Inr content"
    and "\<not> sublist open_tag content"
  shows "fst (plan_trip_with_reasoning project_client query show_thinking w) =
           Inr (Str content)"
  using assms by (simp add: plan_trip_reply extract_reasoning_def str_in_sublist)

theorem no_open_tag_returns_raw_witness:
  "\<not> sublist open_tag scenario_2 \<and>
   fst (plan_trip_with_reasoning (canned scenario_2) kyoto_query True world0) =
     Inr (Str scenario_2)"
proof -
  have absent: "\<not> sublist open_tag scenario_2"
    by (simp add: str_in_sublist [symmetric] scenario_2_def str_eval)
  from no_open_tag_returns_raw
         [of "canned scenario_2" world0 kyoto_query scenario_2 True, OF canned_reply absent]
       absent
  show ?thesis by simp
qed

text \<open>
  C6. Whatever the reply and whichever branch is taken, the full text handed back is the
  raw reply, unmodified: the \<open>full_response\<close> field when the dictionary is returned, the
  returned string itself otherwise.
\<close>

theorem full_response_is_raw:
  assumes "project_client (calls w) (trip_request query) = Inr content"
  shows "case fst (plan_trip_with_reasoning project_client query show_thinking w) of
           Inr (Dict thinking answer full_response) \<Rightarrow> full_response = content
         | Inr (Str text) \<Rightarrow> text = content
         | Inr NoneResult \<Rightarrow> False
         | Inl e \<Rightarrow> False"
  using assms by (simp add: plan_trip_reply extract_reasoning_def Let_def)

theorem full_response_is_raw_witness:
  "(case fst (plan_trip_with_reasoning (canned scenario_1) kyoto_query True world0) of
      Inr (Dict thinking answer full_response) \<Rightarrow> full_response = scenario_1
    | Inr (Str text) \<Rightarrow> text = scenario_1
    | Inr NoneResult \<Rightarrow> False
    | Inl e \<Rightarrow> False) \<and>
   (\<exists>thinking answer.
      fst (plan_trip_with_reasoning (canned scenario_1) kyoto_query True world0) =
        Inr (Dict thinking answer scenario_1))"
proof -
  from full_response_is_raw
         [of "canned scenario_1" world0 kyoto_query scenario_1 True, OF canned_reply]
  show ?thesis
    by (simp add: plan_trip_reply [of "canned scenario_1" world0 kyoto_query scenario_1,
                    OF canned_reply] scenario_1_result)
qed

text \<open>
  C1. On the reply of Scenario 1 the reasoning is the text between the tags, but the
  answer misses its first character: the function skips 12 code points from the start of
  \<open></thinking>\<close>, which is 11 long, so it returns \<open>isit Kyoto in April.\<close> where the text
  after the close tag is \<open>Visit Kyoto in April.\<close>
\<close>

theorem scenario_1_answer_loses_first_character:
  "length close_tag = 11 \<and>
   fst (plan_trip_with_reasoning (canned scenario_1) kyoto_query True world0) =
     Inr (Dict (lit ''Check weather first.'') (lit ''isit Kyoto in April.'') scenario_1)"
  by (simp add: plan_trip_reply canned_def scenario_1_result close_tag_def lit_def)

lemma extract_reasoning_Dict:
  "(\<exists>thinking answer full_response.
      extract_reasoning show_thinking content = Dict thinking answer full_response) \<longleftrightarrow>
   show_thinking \<and> sublist open_tag content \<and> sublist close_tag content"
  by (simp add: extract_reasoning_def Let_def str_in_sublist)

lemma scenario_1_tags: "sublist open_tag scenario_1 \<and> sublist close_tag scenario_1"
  by (simp add: str_in_sublist [symmetric] scenario_1_def str_eval)

text \<open>
  C9. Splitting happens only when the caller asks for it. Called with
  \<open>show_thinking=False\<close>, which is the default, \<open>plan_trip_with_reasoning\<close> returns the
  reply unchanged, tags included, even when both tags are in it; the dictionary
  \<open>{thinking, answer, full_response}\<close> is returned exactly when \<open>show_thinking\<close> is true and
  both tags occur in the reply.
\<close>

theorem splitting_only_on_opt_in:
  assumes "project_client (calls w) (trip_request query) = Inr content"
  shows "fst (plan_trip_default project_client query w) = Inr (Str content) \<and>
         fst (plan_trip_with_reasoning project_client query False w) = Inr (Str content) \<and>
         ((\<exists>thinking answer full_response.
             fst (plan_trip_with_reasoning project_client query show_thinking w) =
               Inr (Dict thinking answer full_response)) \<longleftrightarrow>
          show_thinking \<and> sublist open_tag content \<and> sublist close_tag content)"
  using assms
  by (simp add: plan_trip_default_def plan_trip_reply extract_reasoning_Dict)
     (simp add: extract_reasoning_def)

theorem splitting_only_on_opt_in_witness:
  "sublist open_tag scenario_1 \<and> sublist close_tag scenario_1 \<and>
   fst (plan_trip_default (canned scenario_1) kyoto_query world0) = Inr (Str scenario_1) \<and>
   (\<exists>thinking answer full_response.
      fst (plan_trip_with_reasoning (canned scenario_1) kyoto_query True world0) =
        Inr (Dict thinking answer full_response))"
  using splitting_only_on_opt_in
          [of "canned scenario_1" world0 kyoto_query scenario_1 True, OF canned_reply]
        scenario_1_tags
  by simp

text \<open>
  C3, as stated, fails: a reply with the open tag and no close tag is not split into the
  rest as reasoning and an empty answer. The guard wants both tags, so the reply comes
  back as it is.
\<close>

theorem unterminated_reasoning_counterexample:
  "sublist open_tag unterminated \<and> \<not> sublist close_tag unterminated \<and>
   fst (plan_trip_with_reasoning (canned unterminated) kyoto_query True world0) =
     Inr (Str unterminated) \<and>
   fst (plan_trip_with_reasoning (canned unterminated) kyoto_query True world0) \<noteq>
     Inr (Dict (lit ''Check weather first.'') [] unterminated)"
  by (simp add: plan_trip_reply canned_reply extract_reasoning_def
        str_in_sublist [symmetric] unterminated_def str_eval)

text \<open>
  C3, amended. A reply in which the close tag does not occur is returned unchanged,
  whether or not the open tag occurs in it: nothing is extracted and nothing is trimmed.
\<close>

theorem no_close_tag_returns_raw:
  assumes "project_client (calls w) (trip_request query) = Inr content"
    and "\<not> sublist close_tag content"
  shows "fst (plan_trip_with_reasoning project_client query show_thinking w) =
           Inr (Str content)"
  using assms by (simp add: plan_trip_reply extract_reasoning_def str_in_sublist)

theorem no_close_tag_returns_raw_witness:
  "sublist open_tag unterminated \<and> \<not> sublist close_tag unterminated \<and>
   fst (plan_trip_with_reasoning (canned unterminated) kyoto_query True world0) =
     Inr (Str unterminated)"
proof -
  have tags: "sublist open_tag unterminated \<and> \<not> sublist close_tag unterminated"
    by (simp add: str_in_sublist [symmetric] unterminated_def str_eval)
  from no_close_tag_returns_raw
         [of "canned unterminated" world0 kyoto_query unterminated True, OF canned_reply]
       tags
  show ?thesis by simp
qed






text \<open>
  C2, as stated, fails: an error of the transport, such as an authentication failure,
  does not reach the caller of \<open>plan_trip_with_reasoning\<close>. The handler catches it and the
  function returns \<open>None\<close>, a normal value.
\<close>

theorem transport_error_not_propagated_counterexample:
  "failing (Exception auth_failure) (calls world0) (trip_request kyoto_query) =
     Inl (Exception auth_failure) \<and>
   fst (plan_trip_with_reasoning (failing (Exception auth_failure)) kyoto_query False world0) =
     Inr NoneResult \<and>
   fst (plan_trip_with_reasoning (failing (Exception auth_failure)) kyoto_query False world0) \<noteq>
     Inl (Raised (Exception auth_failure))"
  by (simp add: plan_trip_raise failing_def)

text \<open>
  C2, amended. When the transport raises an \<open>Exception\<close>, \<open>plan_trip_with_reasoning\<close>
  catches it, prints two lines (the first carries the text of the exception) and returns
  \<open>None\<close>. When it raises what is not an \<open>Exception\<close> (\<open>KeyboardInterrupt\<close>,
  \<open>SystemExit\<close>), that reaches the caller unchanged and nothing is printed. Either way
  the transport has been called once and is not called again.
\<close>

theorem transport_error_caught:
  assumes "project_client (calls w) (trip_request query) = Inl r"
  shows "plan_trip_with_reasoning project_client query show_thinking w =
           (case r of
              Exception e \<Rightarrow>
                (Inr NoneResult,
                 w\<lparr>calls := calls w @ [trip_request query],
                   stdout := stdout w @ [error_calling_api e, deployment_hint]\<rparr>)
            | KeyboardInterrupt \<Rightarrow>
                (Inl (Raised KeyboardInterrupt),
                 w\<lparr>calls := calls w @ [trip_request query]\<rparr>)
            | SystemExit \<Rightarrow>
                (Inl (Raised SystemExit), w\<lparr>calls := calls w @ [trip_request query]\<rparr>))"
  using assms
  by (cases r)
     (simp_all add: plan_trip_with_reasoning_def chat_completions_create_def print_def)

theorem transport_error_caught_witness:
  "failing (Exception auth_failure) (calls world0) (trip_request kyoto_query) =
     Inl (Exception auth_failure) \<and>
   plan_trip_with_reasoning (failing (Exception auth_failure)) kyoto_query True world0 =
     (Inr NoneResult,
      \<lparr>calls = [trip_request kyoto_query],
       stdout = [error_calling_api auth_failure, deployment_hint]\<rparr>) \<and>
   failing KeyboardInterrupt (calls world0) (trip_request kyoto_query) =
     Inl KeyboardInterrupt \<and>
   plan_trip_with_reasoning (failing KeyboardInterrupt) kyoto_query True world0 =
     (Inl (Raised KeyboardInterrupt), \<lparr>calls = [trip_request kyoto_query], stdout = []\<rparr>)"
proof -
  have caught:
    "failing (Exception auth_failure) (calls world0) (trip_request kyoto_query) =
       Inl (Exception auth_failure)"
    by (simp add: failing_def)
  have passed:
    "failing KeyboardInterrupt (calls world0) (trip_request kyoto_query) =
       Inl KeyboardInterrupt"
    by (simp add: failing_def)
  from transport_error_caught
         [of "failing (Exception auth_failure)" world0 kyoto_query "Exception auth_failure"
            True, OF caught]
       transport_error_caught
         [of "failing KeyboardInterrupt" world0 kyoto_query KeyboardInterrupt True, OF passed]
       caught passed
  show ?thesis by (simp add: world0_def)
qed

text \<open>
  C8. Every call of \<open>plan_trip_with_reasoning\<close> invokes the transport exactly once. The
  requests sent grow by the one request of this call, and what the call returns is read
  off the transport's answer to that request, given the requests sent before: never
  without asking, and never from an answer kept from an earlier call. A second call with
  the same query asks again, with the first request in the history, and returns what the
  transport answers then.
\<close>

theorem exactly_one_transport_call:
  "calls (snd (plan_trip_with_reasoning project_client query show_thinking w)) =
     calls w @ [trip_request query] \<and>
   fst (plan_trip_with_reasoning project_client query show_thinking w) =
     (case project_client (calls w) (trip_request query) of
        Inr content \<Rightarrow> Inr (extract_reasoning show_thinking content)
      | Inl (Exception e) \<Rightarrow> Inr NoneResult
      | Inl KeyboardInterrupt \<Rightarrow> Inl (Raised KeyboardInterrupt)
      | Inl SystemExit \<Rightarrow> Inl (Raised SystemExit)) \<and>
   calls (snd (plan_trip_with_reasoning project_client query show_thinking
                (snd (plan_trip_with_reasoning project_client query show_thinking w)))) =
     calls w @ [trip_request query, trip_request query] \<and>
   fst (plan_trip_with_reasoning project_client query show_thinking
          (snd (plan_trip_with_reasoning project_client query show_thinking w))) =
     (case project_client (calls w @ [trip_request query]) (trip_request query) of
        Inr content \<Rightarrow> Inr (extract_reasoning show_thinking content)
      | Inl (Exception e) \<Rightarrow> Inr NoneResult
      | Inl KeyboardInterrupt \<Rightarrow> Inl (Raised KeyboardInterrupt)
      | Inl SystemExit \<Rightarrow> Inl (Raised SystemExit))"
proof -
  have sent: "calls (snd (plan_trip_with_reasoning pc q s v)) = calls v @ [trip_request q]"
    for pc q s v
    by (simp add: plan_trip_with_reasoning_def chat_completions_create_def print_def
          split: sum.splits raised.splits)
  have answered:
    "fst (plan_trip_with_reasoning pc q s v) =
       (case pc (calls v) (trip_request q) of
          Inr content \<Rightarrow> Inr (extract_reasoning s content)
        | Inl (Exception e) \<Rightarrow> Inr NoneResult
        | Inl KeyboardInterrupt \<Rightarrow> Inl (Raised KeyboardInterrupt)
        | Inl SystemExit \<Rightarrow> Inl (Raised SystemExit))"
    for pc q s v
    by (simp add: plan_trip_with_reasoning_def chat_completions_create_def
          split: sum.splits raised.splits)
  show ?thesis
    unfolding answered [of project_client query show_thinking
                "snd (plan_trip_with_reasoning project_client query show_thinking w)"]
      sent
    by (simp add: answered)
qed

lemma plain_replies:
  "extract_reasoning False scenario_1 = Str scenario_1 \<and>
   extract_reasoning False scenario_2 = Str scenario_2 \<and> scenario_1 \<noteq> scenario_2"
  by (simp add: extract_reasoning_def scenario_1_def scenario_2_def lit_def)

theorem exactly_one_transport_call_witness:
  "fst (plan_trip_with_reasoning (scripted [Inr scenario_2, Inr scenario_1]) kyoto_query False
          world0) = Inr (Str scenario_2) \<and>
   fst (plan_trip_with_reasoning (scripted [Inr scenario_2, Inr scenario_1]) kyoto_query False
          (snd (plan_trip_with_reasoning (scripted [Inr scenario_2, Inr scenario_1])
                  kyoto_query False world0))) = Inr (Str scenario_1) \<and>
   calls (snd (plan_trip_with_reasoning (scripted [Inr scenario_2, Inr scenario_1])
                 kyoto_query False
                 (snd (plan_trip_with_reasoning (scripted [Inr scenario_2, Inr scenario_1])
                         kyoto_query False world0)))) =
     [trip_request kyoto_query, trip_request kyoto_query] \<and>
   fst (plan_trip_with_reasoning (canned scenario_1) kyoto_query False world0) \<noteq>
   fst (plan_trip_with_reasoning (canned scenario_2) kyoto_query False world0)"
  using exactly_one_transport_call
          [of "scripted [Inr scenario_2, Inr scenario_1]" kyoto_query False world0]
        exactly_one_transport_call [of "canned scenario_1" kyoto_query False world0]
        exactly_one_transport_call [of "canned scenario_2" kyoto_query False world0]
        plain_replies
  by (simp add: scripted_def canned_def world0_def)

lemma strip_leading_space: "isspace c \<Longrightarrow> str_strip (c # s) = str_strip s"
  by (simp add: str_strip_def)

text \<open>
  The one code point too many that the answer skips does no harm when it is whitespace,
  which \<open>strip\<close> would remove anyway.
\<close>

lemma skipped_code_point_when_space:
  assumes "j + 11 < length content" and "isspace (content ! (j + 11))"
  shows "str_strip (drop (j + 12) content) = str_strip (drop (j + 11) content)"
proof -
  have "content ! (j + 11) # drop (Suc (j + 11)) content = drop (j + 11) content"
    using assms(1) by (rule Cons_nth_drop_Suc)
  then have "str_strip (drop (j + 11) content) = str_strip (drop (Suc (j + 11)) content)"
    using assms(2) by (metis strip_leading_space)
  moreover have "Suc (j + 11) = j + 12" by simp
  ultimately show ?thesis by metis
qed


section \<open>What the template renders\<close>

lemmas format_eval =
  lit_def is_identifier_def identifier_start_def identifier_char_def emit_def Let_def

lemma emit_outcome:
  "(case List.find P names of
      Some n \<Rightarrow> r = Inl (KeyError n)
    | None \<Rightarrow> (\<exists>out. r = Inr out)) \<Longrightarrow>
   (case List.find P names of
      Some n \<Rightarrow> emit piece r = Inl (KeyError n)
    | None \<Rightarrow> (\<exists>out. emit piece r = Inr out))"
  by (auto simp: emit_def split: option.splits)

lemma format_first_unbound:
  "placeholders template = Some names \<Longrightarrow>
   (case List.find (\<lambda>n. kwargs n = None) names of
      Some n \<Rightarrow> str_format template kwargs = Inl (KeyError n)
    | None \<Rightarrow> (\<exists>out. str_format template kwargs = Inr out))"
proof (induction template kwargs arbitrary: names rule: str_format.induct)
  case (1 kwargs)
  then show ?case by simp
next
  case (2 c cs kwargs)
  let ?field = "takeWhile (\<lambda>x. x \<noteq> 125) cs"
  let ?rest = "dropWhile (\<lambda>x. x \<noteq> 125) cs"
  consider (rbrace) "c = 125" | (lbrace) "c \<noteq> 125" "c = 123" | (other) "c \<noteq> 125" "c \<noteq> 123"
    by blast
  then show ?case
  proof cases
    case rbrace
    with "2.prems" obtain ds where cs: "cs = 125 # ds" and ds: "placeholders ds = Some names"
      by (auto split: list.splits if_splits)
    have eq: "str_format (c # cs) kwargs = emit [125] (str_format ds kwargs)"
      using rbrace cs by simp
    from "2.IH"(1) [OF rbrace cs _ ds] have
      "case List.find (\<lambda>n. kwargs n = None) names of
         Some n \<Rightarrow> str_format ds kwargs = Inl (KeyError n)
       | None \<Rightarrow> (\<exists>out. str_format ds kwargs = Inr out)"
      by simp
    then show ?thesis unfolding eq by (rule emit_outcome)
  next
    case lbrace
    with "2.prems" obtain d ds where cs: "cs = d # ds"
      by (auto split: list.splits)
    show ?thesis
    proof (cases "d = 123")
      case True
      with "2.prems" lbrace cs have ds: "placeholders ds = Some names" by simp
      have eq: "str_format (c # cs) kwargs = emit [123] (str_format ds kwargs)"
        using lbrace cs True by simp
      from "2.IH"(2) [OF lbrace cs True ds] have
        "case List.find (\<lambda>n. kwargs n = None) names of
           Some n \<Rightarrow> str_format ds kwargs = Inl (KeyError n)
         | None \<Rightarrow> (\<exists>out. str_format ds kwargs = Inr out)" .
      then show ?thesis unfolding eq by (rule emit_outcome)
    next
      case False
      with "2.prems" lbrace cs obtain names' where
        ident: "is_identifier ?field" and rest: "?rest \<noteq> []" and
        names: "names = ?field # names'" and tail: "placeholders (tl ?rest) = Some names'"
        by (auto simp: Let_def split: if_splits)
      show ?thesis
      proof (cases "kwargs ?field")
        case None
        have "str_format (c # cs) kwargs = Inl (KeyError ?field)"
          using lbrace cs False ident rest None by (simp add: Let_def)
        with names None show ?thesis by simp
      next
        case (Some v)
        have eq: "str_format (c # cs) kwargs = emit v (str_format (tl ?rest) kwargs)"
          using lbrace cs False ident rest Some by (simp add: Let_def)
        have find: "List.find (\<lambda>n. kwargs n = None) names =
                    List.find (\<lambda>n. kwargs n = None) names'"
          using names Some by simp
        from "2.IH"(3) [OF lbrace cs False refl refl _ _ Some tail] ident rest have
          "case List.find (\<lambda>n. kwargs n = None) names' of
             Some n \<Rightarrow> str_format (tl ?rest) kwargs = Inl (KeyError n)
           | None \<Rightarrow> (\<exists>out. str_format (tl ?rest) kwargs = Inr out)"
          by simp
        then show ?thesis unfolding eq find by (rule emit_outcome)
      qed
    qed
  next
    case other
    with "2.prems" have cs: "placeholders cs = Some names" by simp
    have eq: "str_format (c # cs) kwargs = emit [c] (str_format cs kwargs)"
      using other by simp
    from "2.IH"(4) [OF other cs] have
      "case List.find (\<lambda>n. kwargs n = None) names of
         Some n \<Rightarrow> str_format cs kwargs = Inl (KeyError n)
       | None \<Rightarrow> (\<exists>out. str_format cs kwargs = Inr out)" .
    then show ?thesis unfolding eq by (rule emit_outcome)
  qed
qed


lemma identifier_no_brace:
  assumes "is_identifier n"
  shows "n \<noteq> []" and "hd n \<noteq> 123" and "takeWhile (\<lambda>x. x \<noteq> 125) (n @ 125 # rest) = n"
    and "dropWhile (\<lambda>x. x \<noteq> 125) (n @ 125 # rest) = 125 # rest"
proof -
  from assms obtain c cs where n: "n = c # cs" "identifier_start c" "list_all identifier_char cs"
    by (auto simp: is_identifier_def split: list.splits)
  then have all: "\<forall>x\<in>set n. x \<noteq> 125"
    by (auto simp: list_all_iff identifier_char_def identifier_start_def)
  from n show "n \<noteq> []" by simp
  from n show "hd n \<noteq> 123" by (auto simp: identifier_start_def)
  from all show "takeWhile (\<lambda>x. x \<noteq> 125) (n @ 125 # rest) = n"
    by (simp add: takeWhile_append2)
  from all show "dropWhile (\<lambda>x. x \<noteq> 125) (n @ 125 # rest) = 125 # rest"
    by (simp add: dropWhile_append2)
qed

lemma placeholders_escape: "placeholders (escape_braces t @ rest) = placeholders rest"
  by (induction t) (simp_all add: escape_braces_def)

lemma placeholders_field:
  assumes "is_identifier n"
  shows "placeholders (123 # n @ 125 # rest) = map_option ((#) n) (placeholders rest)"
proof -
  from identifier_no_brace(1,2) [OF assms] obtain d ds where n: "n = d # ds" "d \<noteq> 123"
    by (cases n) simp_all
  have "placeholders (123 # (d # ds) @ 125 # rest) =
          map_option ((#) (d # ds)) (placeholders rest)"
    using identifier_no_brace(3,4) [OF assms, of rest] assms n
    by (simp add: Let_def)
  with n show ?thesis by simp
qed

lemma placeholders_template_of:
  "list_all is_identifier (fields_of segs) \<Longrightarrow>
   placeholders (template_of segs) = Some (fields_of segs)"
  by (induction segs rule: template_of.induct)
     (simp_all add: placeholders_escape placeholders_field del: placeholders.simps(2))

lemma str_format_escape:
  "str_format (escape_braces t @ rest) kwargs = emit t (str_format rest kwargs)"
  by (induction t) (auto simp: escape_braces_def emit_def split: sum.splits)

lemma str_format_field:
  assumes "is_identifier n"
  shows "str_format (123 # n @ 125 # rest) kwargs =
           (case kwargs n of
              None \<Rightarrow> Inl (KeyError n)
            | Some v \<Rightarrow> emit v (str_format rest kwargs))"
proof -
  from identifier_no_brace(1,2) [OF assms] obtain d ds where n: "n = d # ds" "d \<noteq> 123"
    by (cases n) simp_all
  show ?thesis
    unfolding n(1)
    using identifier_no_brace(3,4) [OF assms, of rest, unfolded n(1)] assms [unfolded n(1)] n(2)
    by (simp add: Let_def split: option.splits)
qed

lemma str_format_template_of:
  "list_all is_identifier (fields_of segs) \<Longrightarrow>
   list_all (\<lambda>n. kwargs n \<noteq> None) (fields_of segs) \<Longrightarrow>
   str_format (template_of segs) kwargs = Inr (substitute kwargs segs)"
  by (induction segs rule: template_of.induct)
     (auto simp: str_format_escape str_format_field emit_def simp del: str_format.simps(2))

lemma hello_placeholders: "placeholders hello_template = Some [lit ''name'']"
  by (simp add: hello_template_def format_eval)

lemma system_template_placeholders:
  "placeholders system_template = Some [lit ''name'', lit ''goal'']"
  by (simp add: system_template_def format_eval)

lemma system_prompt:
  "str_format system_template [lit ''name'' \<mapsto> user_name, lit ''goal'' \<mapsto> goal] =
     Inr (lit ''You are FitChat GPT, an AI personal trainer for '' @ user_name @
          lit ''.'' @ [10] @ lit ''Your user wants to achieve: '' @ goal @ lit ''.'' @ [10] @
          lit ''Remind them you're not a medical professional. Offer friendly advice.'')"
  by (simp add: system_template_def format_eval)

lemma scenario_3:
  "str_format (lit ''Hello {name}, goal: {goal}.'')
     [lit ''name'' \<mapsto> lit ''Jordan'', lit ''goal'' \<mapsto> lit ''endurance''] =
   Inr (lit ''Hello Jordan, goal: endurance.'')"
  by (simp add: format_eval)

lemma chat_with_template_outcome:
  "fst (chat_with_template project_client model_deployment user_input user_name goal w) \<noteq>
     Inl (KeyError n) \<and>
   length (calls (snd (chat_with_template project_client model_deployment user_input
                         user_name goal w))) = Suc (length (calls w))"
  unfolding chat_with_template_def system_prompt chat_completions_create_def
  by (simp split: sum.splits)

text \<open>
  C5. Take a template whose scan finds the field names \<open>names\<close>. If one of them has no
  binding, \<open>format\<close> raises \<open>KeyError\<close> with the first such name in the order of the scan;
  if all are bound it returns a string. The template of \<open>chat_with_template\<close> has the
  fields \<open>name\<close> and \<open>goal\<close>, both always bound, so it always renders.
\<close>

theorem format_names_first_unbound:
  assumes "placeholders template = Some names"
  shows "(case List.find (\<lambda>n. kwargs n = None) names of
            Some n \<Rightarrow> str_format template kwargs = Inl (KeyError n)
          | None \<Rightarrow> (\<exists>out. str_format template kwargs = Inr out)) \<and>
         placeholders system_template = Some [lit ''name'', lit ''goal''] \<and>
         (\<exists>system_prompt.
            str_format system_template [lit ''name'' \<mapsto> user_name, lit ''goal'' \<mapsto> goal] =
              Inr system_prompt)"
  using format_first_unbound [OF assms] system_template_placeholders system_prompt
  by simp

theorem format_names_first_unbound_witness:
  "placeholders hello_template = Some [lit ''name''] \<and>
   str_format hello_template Map.empty = Inl (KeyError (lit ''name'')) \<and>
   (\<exists>out. str_format hello_template [lit ''name'' \<mapsto> lit ''Jordan''] = Inr out)"
  using format_names_first_unbound [OF hello_placeholders, of Map.empty]
    format_names_first_unbound [OF hello_placeholders, of "[lit ''name'' \<mapsto> lit ''Jordan'']"]
    hello_placeholders
  by simp


section \<open>Words of a query\<close>

lemma split_words_acc:
  "\<not> list_ex isspace u \<Longrightarrow> split_words acc (u @ s) = split_words (acc @ u) s"
  by (induction u arbitrary: acc) simp_all

lemma str_split_Nil: "str_split [] = []"
  by (simp add: str_split_def)

lemma str_split_space: "isspace c \<Longrightarrow> str_split (c # cs) = str_split cs"
  by (simp add: str_split_def)

lemma str_split_word:
  assumes "\<not> isspace c"
  shows "str_split (c # cs) =
           (c # takeWhile (\<lambda>x. \<not> isspace x) cs) # str_split (dropWhile (\<lambda>x. \<not> isspace x) cs)"
proof -
  let ?tw = "takeWhile (\<lambda>x. \<not> isspace x) cs" and ?dw = "dropWhile (\<lambda>x. \<not> isspace x) cs"
  have "\<not> list_ex isspace ?tw"
    by (auto simp: list_ex_iff dest: set_takeWhileD)
  then have "split_words [c] (?tw @ ?dw) = split_words (c # ?tw) ?dw"
    using split_words_acc [of ?tw "[c]" ?dw] by simp
  then have step: "str_split (c # cs) = split_words (c # ?tw) ?dw"
    using assms by (simp add: str_split_def)
  have "split_words (c # ?tw) ?dw = (c # ?tw) # str_split ?dw"
  proof (cases ?dw)
    case Nil
    show ?thesis unfolding Nil str_split_def by simp
  next
    case (Cons d ds)
    then have "isspace d" using hd_dropWhile [of "\<lambda>x. \<not> isspace x" cs] by simp
    then show ?thesis unfolding Cons str_split_def by simp
  qed
  with step show ?thesis by (simp only:)
qed

lemma str_split_sound: "w \<in> set (str_split s) \<Longrightarrow> word_of w s"
proof (induction "length s" arbitrary: s rule: less_induct)
  case less
  show ?case
  proof (cases s)
    case Nil
    with less.prems show ?thesis by (simp add: str_split_Nil)
  next
    case (Cons c cs)
    let ?tw = "takeWhile (\<lambda>x. \<not> isspace x) cs" and ?dw = "dropWhile (\<lambda>x. \<not> isspace x) cs"
    show ?thesis
    proof (cases "isspace c")
      case True
      with less.prems Cons have "w \<in> set (str_split cs)" by (simp add: str_split_space)
      with less.hyps [of cs] Cons have "word_of w cs" by simp
      then obtain pre post where w: "w \<noteq> []" "\<not> list_ex isspace w" and
        cs: "cs = pre @ w @ post" "pre = [] \<or> isspace (last pre)" "post = [] \<or> isspace (hd post)"
        by (auto simp: word_of_def)
      from cs True have "s = (c # pre) @ w @ post \<and> isspace (last (c # pre))"
        using Cons by auto
      with w cs(3) show ?thesis unfolding word_of_def by blast
    next
      case False
      have split: "str_split s = (c # ?tw) # str_split ?dw"
        using Cons str_split_word [OF False] by simp
      have dw: "?dw = [] \<or> isspace (hd ?dw)"
        using hd_dropWhile [of "\<lambda>x. \<not> isspace x" cs] by auto
      have tw: "\<not> list_ex isspace (c # ?tw)"
        using False by (auto simp: list_ex_iff dest: set_takeWhileD)
      from less.prems split consider (first) "w = c # ?tw" | (later) "w \<in> set (str_split ?dw)"
        by auto
      then show ?thesis
      proof cases
        case first
        have "s = [] @ w @ ?dw" using Cons first by simp
        with first tw dw show ?thesis unfolding word_of_def by blast
      next
        case later
        have "length ?dw < length s"
          using Cons length_dropWhile_le [of "\<lambda>x. \<not> isspace x" cs] by simp
        from less.hyps [OF this later] obtain pre post where
          w: "w \<noteq> []" "\<not> list_ex isspace w" and
          d: "?dw = pre @ w @ post" "pre = [] \<or> isspace (last pre)"
             "post = [] \<or> isspace (hd post)"
          by (auto simp: word_of_def)
        have "pre \<noteq> []"
        proof
          assume "pre = []"
          with d(1) w(1) have "hd ?dw = hd w" "?dw \<noteq> []" by simp_all
          with dw have "isspace (hd w)" by metis
          with w show False by (cases w) (simp_all add: list_ex_iff)
        qed
        with d(2) have "isspace (last ((c # ?tw) @ pre))" by simp
        moreover have "s = ((c # ?tw) @ pre) @ w @ post"
          using Cons d(1) takeWhile_dropWhile_id [of "\<lambda>x. \<not> isspace x" cs] by simp
        ultimately show ?thesis using w d(3) unfolding word_of_def by blast
      qed
    qed
  qed
qed


lemma last_dropWhile:
  assumes "dropWhile P xs \<noteq> []"
  shows "last (dropWhile P xs) = last xs"
proof -
  have "last (takeWhile P xs @ dropWhile P xs) = last (dropWhile P xs)"
    using assms by (rule last_appendR)
  then show ?thesis by simp
qed

lemma str_split_complete: "word_of w s \<Longrightarrow> w \<in> set (str_split s)"
proof (induction "length s" arbitrary: s rule: less_induct)
  case less
  let ?P = "\<lambda>x. \<not> isspace x"
  from less.prems obtain pre post where
    w: "w \<noteq> []" "\<not> list_ex isspace w" and s: "s = pre @ w @ post" and
    b: "pre = [] \<or> isspace (last pre)" "post = [] \<or> isspace (hd post)"
    by (auto simp: word_of_def)
  from w(1) s have "s \<noteq> []" by simp
  then obtain c cs where Cons: "s = c # cs" by (cases s) simp_all
  from w have hdw: "\<not> isspace (hd w)" by (cases w) (simp_all add: list_ex_iff)
  show ?case
  proof (cases "isspace c")
    case True
    have "pre \<noteq> []"
    proof
      assume "pre = []"
      with s Cons w(1) have "hd w = c" by (cases w) simp_all
      with True hdw show False by simp
    qed
    then obtain pre' where pre: "pre = c # pre'" using s Cons by (cases pre) simp_all
    with s Cons have cs: "cs = pre' @ w @ post" by simp
    from b(1) pre have "pre' = [] \<or> isspace (last pre')" by (cases pre') simp_all
    with w cs b(2) have "word_of w cs" unfolding word_of_def by blast
    with less.hyps [of cs] Cons have "w \<in> set (str_split cs)" by simp
    with True Cons show ?thesis by (simp add: str_split_space)
  next
    case False
    have split: "str_split s = (c # takeWhile ?P cs) # str_split (dropWhile ?P cs)"
      using Cons str_split_word [OF False] by simp
    show ?thesis
    proof (cases "pre = []")
      case True
      with s Cons w(1) obtain w' where w': "w = c # w'" "cs = w' @ post"
        by (cases w) simp_all
      from w(2) w'(1) have all: "\<forall>x\<in>set w'. ?P x" by (simp add: list_ex_iff)
      have "takeWhile ?P post = []" using b(2) by (cases post) simp_all
      with all w'(2) have "takeWhile ?P cs = w'" by (simp add: takeWhile_append2)
      with split w'(1) show ?thesis by simp
    next
      case nonempty: False
      then obtain pre' where pre: "pre = c # pre'" using s Cons by (cases pre) simp_all
      with b(1) False have pre': "pre' \<noteq> []" "isspace (last pre')"
        by (cases pre'; simp)+
      then have "last pre' \<in> set pre'" by simp
      with pre'(2) have drop: "dropWhile ?P (pre' @ w @ post) = dropWhile ?P pre' @ w @ post"
        by (intro dropWhile_append1 [of "last pre'"]) simp_all
      have ne: "dropWhile ?P pre' \<noteq> []"
        using pre' \<open>last pre' \<in> set pre'\<close> by (auto simp: dropWhile_eq_Nil_conv)
      with pre'(2) have "isspace (last (dropWhile ?P pre'))" by (simp add: last_dropWhile)
      moreover have dw: "dropWhile ?P cs = dropWhile ?P pre' @ w @ post"
        using s Cons pre drop by simp
      ultimately have "word_of w (dropWhile ?P cs)"
        using w b(2) ne unfolding word_of_def by blast
      moreover have "length (dropWhile ?P cs) < length s"
        using Cons length_dropWhile_le [of ?P cs] by simp
      ultimately have "w \<in> set (str_split (dropWhile ?P cs))"
        using less.hyps by blast
      with split show ?thesis by simp
    qed
  qed
qed

lemma str_split_words: "set (str_split s) = {w. word_of w s}"
  using str_split_sound str_split_complete by blast


lemma word_of_ex:
  "(\<exists>word. word_of word s \<and> Q word) \<longleftrightarrow> (\<exists>word\<in>set (str_split s). Q word)"
  by (auto simp: str_split_words)


section \<open>Which tips are retrieved\<close>

lemma tips_loop_filter:
  "tips_loop lower query_lower tips relevant =
     relevant @ map format_tip (filter (any_word_in lower query_lower) tips)"
  by (induction tips arbitrary: relevant) simp_all

lemma any_word_in_word_of:
  "any_word_in lower query_lower =
     (\<lambda>tip. \<exists>word. word_of word query_lower \<and> sublist word (lower (tip_content tip)))"
  by (simp add: any_word_in_def list_ex_iff str_in_sublist fun_eq_iff word_of_ex)

lemma str_join_nonempty: "lines \<noteq> [] \<Longrightarrow> hd lines \<noteq> [] \<Longrightarrow> str_join sep lines \<noteq> []"
  by (induction sep lines rule: str_join.induct) simp_all

lemma format_tip_nonempty: "format_tip tip \<noteq> []"
  by (simp add: format_tip_def lit_def)

lemma health_tips_five: "length health_tips = 5"
  by (simp add: health_tips_def)

lemma str_join_lines:
  "lines \<noteq> [] \<Longrightarrow> str_join sep lines @ sep = concat (map (\<lambda>line. line @ sep) lines)"
  by (induction sep lines rule: str_join.induct) simp_all

text \<open>
  C10. For every query \<open>retrieve_tips\<close> returns a non-empty string. The tips it returns
  are those for which some whitespace-separated word of the lowercased query occurs in
  the lowercased content of the tip, in the order of the list; when there is no such
  tip, all five tips are returned. Each tip gives the line \<open>Source: source => content\<close>,
  and the lines are joined by line feeds: the result with a line feed after it is every
  line with a line feed after it.
\<close>

theorem retrieve_tips_matching:
  "retrieve_tips lower query \<noteq> [] \<and> length health_tips = 5 \<and>
   (let matching =
          filter (\<lambda>tip. \<exists>word. word_of word (lower query) \<and>
                          sublist word (lower (tip_content tip))) health_tips;
        chosen = (if matching = [] then health_tips else matching)
    in retrieve_tips lower query @ [10] =
         concat (map (\<lambda>tip. lit ''Source: '' @ tip_source tip @ lit '' => '' @
                              tip_content tip @ [10]) chosen))"
proof -
  let ?matching = "filter (\<lambda>tip. \<exists>word. word_of word (lower query) \<and>
                            sublist word (lower (tip_content tip))) health_tips"
  let ?chosen = "if ?matching = [] then health_tips else ?matching"
  have loop: "tips_loop lower (lower query) health_tips [] = map format_tip ?matching"
    by (simp add: tips_loop_filter any_word_in_word_of)
  have eq: "retrieve_tips lower query = str_join [10] (map format_tip ?chosen)"
    by (simp add: retrieve_tips_def loop Let_def)
  have "health_tips \<noteq> []" using health_tips_five by auto
  then have chosen: "?chosen \<noteq> []" by simp
  then have "map format_tip ?chosen \<noteq> []" "hd (map format_tip ?chosen) \<noteq> []"
    by (simp_all add: hd_map format_tip_nonempty)
  then have nonempty: "str_join [10] (map format_tip ?chosen) \<noteq> []"
    by (rule str_join_nonempty)
  from chosen have "map format_tip ?chosen \<noteq> []" by simp
  from str_join_lines [OF this, of "[10]"]
  have "str_join [10] (map format_tip ?chosen) @ [10] =
          concat (map (\<lambda>tip. lit ''Source: '' @ tip_source tip @ lit '' => '' @
                               tip_content tip @ [10]) ?chosen)"
    by (simp add: format_tip_def comp_def)
  with eq nonempty health_tips_five show ?thesis by (simp add: Let_def)
qed

lemma workout_words:
  "str_split (ascii_lower workout_query) = [lit ''walk'', lit ''workout'']"
  by (simp add: workout_query_def ascii_lower_def lit_def str_split_def isspace_def)

lemma workout_matching:
  "filter (\<lambda>tip. \<exists>word. word_of word (ascii_lower workout_query) \<and>
                    sublist word (ascii_lower (tip_content tip))) health_tips =
   [health_tips ! 0, health_tips ! 1, health_tips ! 4]"
  unfolding word_of_ex workout_words health_tips_def
  by (simp add: str_in_sublist [symmetric] ascii_lower_def lit_def)

lemma workout_lines:
  "concat (map (\<lambda>tip. lit ''Source: '' @ tip_source tip @ lit '' => '' @
                        tip_content tip @ [10])
             [health_tips ! 0, health_tips ! 1, health_tips ! 4]) =
   (lit ''Source: Fitness Guru => Do a 10-minute HIIT workout to boost your metabolism.'' @
    [10] @
    lit ''Source: Health Coach => Take a brisk 15-minute walk to clear your mind and improve circulation.'' @
    [10] @
    lit ''Source: Nutritionist => Drink water regularly to stay hydrated during workouts.'') @
   [10]"
  by (simp add: health_tips_def lit_def)

lemma yoga_words: "str_split (ascii_lower yoga_query) = [lit ''yoga?'']"
  by (simp add: yoga_query_def ascii_lower_def lit_def str_split_def isspace_def)

lemma yoga_matching:
  "filter (\<lambda>tip. \<exists>word. word_of word (ascii_lower yoga_query) \<and>
                    sublist word (ascii_lower (tip_content tip))) health_tips = []"
  unfolding word_of_ex yoga_words health_tips_def
  by (simp add: str_in_sublist [symmetric] ascii_lower_def lit_def)

lemma all_lines:
  "concat (map (\<lambda>tip. lit ''Source: '' @ tip_source tip @ lit '' => '' @
                        tip_content tip @ [10]) health_tips) =
   (lit ''Source: Fitness Guru => Do a 10-minute HIIT workout to boost your metabolism.'' @
    [10] @
    lit ''Source: Health Coach => Take a brisk 15-minute walk to clear your mind and improve circulation.'' @
    [10] @
    lit ''Source: Wellness Expert => Stretch for 5 minutes every hour if you're sitting at a desk.'' @
    [10] @
    lit ''Source: Personal Trainer => Incorporate strength training twice a week for overall fitness.'' @
    [10] @
    lit ''Source: Nutritionist => Drink water regularly to stay hydrated during workouts.'') @
   [10]"
  by (simp add: health_tips_def lit_def)

theorem retrieve_tips_matching_witness:
  "retrieve_tips ascii_lower workout_query =
     lit ''Source: Fitness Guru => Do a 10-minute HIIT workout to boost your metabolism.'' @
     [10] @
     lit ''Source: Health Coach => Take a brisk 15-minute walk to clear your mind and improve circulation.'' @
     [10] @
     lit ''Source: Nutritionist => Drink water regularly to stay hydrated during workouts.'' \<and>
   retrieve_tips ascii_lower yoga_query =
     lit ''Source: Fitness Guru => Do a 10-minute HIIT workout to boost your metabolism.'' @
     [10] @
     lit ''Source: Health Coach => Take a brisk 15-minute walk to clear your mind and improve circulation.'' @
     [10] @
     lit ''Source: Wellness Expert => Stretch for 5 minutes every hour if you're sitting at a desk.'' @
     [10] @
     lit ''Source: Personal Trainer => Incorporate strength training twice a week for overall fitness.'' @
     [10] @
     lit ''Source: Nutritionist => Drink water regularly to stay hydrated during workouts.''"
proof -
  have three: "[health_tips ! 0, health_tips ! 1, health_tips ! 4] \<noteq> []" by simp
  from retrieve_tips_matching [of ascii_lower workout_query]
  have workout: "retrieve_tips ascii_lower workout_query @ [10] =
          concat (map (\<lambda>tip. lit ''Source: '' @ tip_source tip @ lit '' => '' @
                               tip_content tip @ [10])
                    [health_tips ! 0, health_tips ! 1, health_tips ! 4])"
    unfolding Let_def workout_matching if_not_P [OF three] by (rule conjunct2 [THEN conjunct2])
  from retrieve_tips_matching [of ascii_lower yoga_query]
  have yoga: "retrieve_tips ascii_lower yoga_query @ [10] =
          concat (map (\<lambda>tip. lit ''Source: '' @ tip_source tip @ lit '' => '' @
                               tip_content tip @ [10]) health_tips)"
    unfolding Let_def yoga_matching if_P [OF refl] by (rule conjunct2 [THEN conjunct2])
  from workout yoga show ?thesis
    unfolding workout_lines all_lines by (simp only: append_same_eq simp_thms)
qed

end
